theory Spec2Isabelle
  imports Main "HOL-Library.Sublist"
begin

section \<open>Strings\<close>

text \<open>
  A JavaScript string is modelled as a \<^typ>\<open>string\<close>: one \<^typ>\<open>char\<close> stands for one
  code unit, so \<^const>\<open>length\<close> is the source's \<^verbatim>\<open>.length\<close>. Numbers that the source
  uses as lengths and bounds are modelled as \<^typ>\<open>int\<close> (the settings schema and the
  documentation speak of a number of characters).
\<close>

abbreviation NL :: char where
  "NL \<equiv> CHR 0x0A"

text \<open>\<^verbatim>\<open>Array.prototype.join(sep)\<close> on an array of strings.\<close>

fun js_join :: "string \<Rightarrow> string list \<Rightarrow> string" where
  "js_join sep [] = []"
| "js_join sep [x] = x"
| "js_join sep (x # y # ys) = x @ sep @ js_join sep (y # ys)"

text \<open>
  \<^verbatim>\<open>String.prototype.trim\<close>: white space and line terminators are removed at both
  ends. The characters listed are those of the 8-bit range.
\<close>

definition is_space :: "char \<Rightarrow> bool" where
  "is_space c = (c \<in> {CHR 0x09, CHR 0x0A, CHR 0x0B, CHR 0x0C, CHR 0x0D, CHR 0x20, CHR 0xA0})"

definition js_trim :: "string \<Rightarrow> string" where
  "js_trim s = rev (dropWhile is_space (rev (dropWhile is_space s)))"

text \<open>
  \<^verbatim>\<open>s.substring(0, n)\<close>: an end below zero counts as zero and an end beyond the
  length counts as the length.
\<close>

definition substring0 :: "string \<Rightarrow> int \<Rightarrow> string" where
  "substring0 s n = take (nat n) s"

section \<open>Truncation of the commit message\<close>

definition ellipsis :: string where
  "ellipsis = NL # ''...''"

definition truncateCommitMessage :: "string \<Rightarrow> int \<Rightarrow> string" where
  "truncateCommitMessage message maxLength =
     (if int (length message) \<le> maxLength then message
      else (let truncateLength = maxLength - int (length ellipsis)
            in substring0 message truncateLength @ ellipsis))"

section \<open>Messages and the last turn\<close>

text \<open>
  The session query returns messages as \<^verbatim>\<open>{ info: { role, id, parentID? }, parts }\<close>;
  a part has a \<^verbatim>\<open>type\<close> and, when it is a text part, a \<^verbatim>\<open>text\<close>. The source
  types them \<^verbatim>\<open>any\<close>, so role and type stay strings, and an absent \<^verbatim>\<open>parentID\<close>
  or \<^verbatim>\<open>text\<close> is \<^const>\<open>None\<close>.
\<close>

record MessageInfo =
  role :: string
  msgID :: string
  parentID :: "string option"

record Part =
  partType :: string
  partText :: "string option"

record Message =
  info :: MessageInfo
  parts :: "Part list"

record LastTurn =
  userMessageID :: string
  userPrompt :: string
  assistantResponse :: string

text \<open>\<^verbatim>\<open>join\<close> writes an undefined element as the empty string.\<close>

definition textOf :: "Part \<Rightarrow> string" where
  "textOf p = (case partText p of None \<Rightarrow> [] | Some t \<Rightarrow> t)"

definition isText :: "Part \<Rightarrow> bool" where
  "isText p = (partType p = ''text'')"

definition textParts :: "Part list \<Rightarrow> string list" where
  "textParts ps = map textOf (filter isText ps)"

text \<open>
  The loop \<^verbatim>\<open>for (let i = messages.length - 1; i >= 0; i--)\<close> that stops at the first
  user message: the second argument is \<open>i + 1\<close>, so the call with
  \<open>length messages\<close> starts at the last index and \<open>0\<close> is the exhausted loop.
\<close>

fun findLastUser :: "Message list \<Rightarrow> nat \<Rightarrow> Message option" where
  "findLastUser messages 0 = None"
| "findLastUser messages (Suc i) =
     (if role (info (messages ! i)) = ''user'' then Some (messages ! i)
      else findLastUser messages i)"

definition repliesTo :: "Message \<Rightarrow> Message \<Rightarrow> bool" where
  "repliesTo lastUserMsg m =
     (role (info m) = ''assistant'' \<and> parentID (info m) = Some (msgID (info lastUserMsg)))"

definition getLastTurn :: "Message list \<Rightarrow> LastTurn option" where
  "getLastTurn messages =
     (case findLastUser messages (length messages) of
        None \<Rightarrow> None
      | Some lastUserMsg \<Rightarrow>
          (let assistantMessages = filter (repliesTo lastUserMsg) messages;
               userPromptText = js_join [NL] (textParts (parts lastUserMsg));
               assistantResponseText =
                 js_join [NL]
                   (map textOf (concat (map (\<lambda>m. filter isText (parts m)) assistantMessages)))
           in Some \<lparr> userMessageID = msgID (info lastUserMsg),
                       userPrompt = userPromptText,
                       assistantResponse = assistantResponseText \<rparr>))"

text \<open>
  The assistant response as the specification words it: the text parts of each replying
  assistant message joined by a line feed, and these per-message strings joined by a line
  feed again. It is compared with \<^const>\<open>getLastTurn\<close> below.
\<close>

definition assistantResponse_spec :: "Message \<Rightarrow> Message list \<Rightarrow> string" where
  "assistantResponse_spec lastUserMsg messages =
     js_join [NL]
       (map (\<lambda>m. js_join [NL] (textParts (parts m))) (filter (repliesTo lastUserMsg) messages))"

definition getLastTurn_spec :: "Message list \<Rightarrow> LastTurn option" where
  "getLastTurn_spec messages =
     (case findLastUser messages (length messages) of
        None \<Rightarrow> None
      | Some lastUserMsg \<Rightarrow>
          Some \<lparr> userMessageID = msgID (info lastUserMsg),
                  userPrompt = js_join [NL] (textParts (parts lastUserMsg)),
                  assistantResponse = assistantResponse_spec lastUserMsg messages \<rparr>)"

text \<open>A history in which the first of two replies has no text part.\<close>

definition mkMessage :: "string \<Rightarrow> string \<Rightarrow> string option \<Rightarrow> string list \<Rightarrow> Message" where
  "mkMessage r i p ts =
     \<lparr> info = \<lparr> role = r, msgID = i, parentID = p \<rparr>,
       parts = map (\<lambda>t. \<lparr> partType = ''text'', partText = Some t \<rparr>) ts \<rparr>"

definition silentReplyHistory :: "Message list" where
  "silentReplyHistory =
     [mkMessage ''user'' ''u1'' None [''Add file''],
      mkMessage ''assistant'' ''a1'' (Some ''u1'') [],
      mkMessage ''assistant'' ''a2'' (Some ''u1'') [''Done'']]"

text \<open>
  A history with two user messages whose replies interleave: the reply \<open>a2\<close> to the
  first user message comes after the second user message.
\<close>

definition interleavedHistory :: "Message list" where
  "interleavedHistory =
     [mkMessage ''user'' ''u1'' None [''first''],
      mkMessage ''assistant'' ''a1'' (Some ''u1'') [''x''],
      mkMessage ''user'' ''u2'' None [''second'', ''prompt''],
      mkMessage ''assistant'' ''a2'' (Some ''u1'') [''old''],
      mkMessage ''assistant'' ''a3'' (Some ''u2'') [''p'', ''q''],
      mkMessage ''assistant'' ''a4'' (Some ''u2'') [''r'']]"

section \<open>Collaborators, steps and errors\<close>

text \<open>
  A run of the plugin is observed as the list of its steps in program order: the calls to
  the logger, the shell and the session client, and the write of the dedup marker
  (\<^verbatim>\<open>lastCommittedTurnID = turn.userMessageID\<close>). A log entry is its level and message;
  the \<^verbatim>\<open>extra\<close> payload is left out.
\<close>

datatype step =
    Log string string
  | GitRevParse
  | SessionMessages string
  | GitStatus
  | SessionCreate
  | SessionPrompt string string
  | SessionDelete string
  | GitAdd
  | GitCommit string
  | SetLastCommittedTurnID string

text \<open>
  A thrown value: a rejection by the mode schema (with the value it rejected), a call to
  a collaborator that threw, or \<^verbatim>\<open>new Error(message)\<close> of the plugin itself, with the
  error it wraps when there is one.
\<close>

datatype error =
    ZodError string
  | Rejected step
  | Error string "error option"

text \<open>
  What the collaborators answer during one run of the event handler; each is called at
  most once in a run.
  \<^item> \<open>revParseOut\<close>, \<open>statusOut\<close>: the standard output of
    \<^verbatim>\<open>git rev-parse --show-toplevel\<close> and \<^verbatim>\<open>git status --porcelain\<close>, \<^const>\<open>None\<close> when
    the shell call throws;
  \<^item> \<open>messagesResp\<close>, \<open>createResp\<close>, \<open>promptResp\<close>: the answers of
    \<^verbatim>\<open>client.session.messages\<close>, \<^verbatim>\<open>create\<close> and \<^verbatim>\<open>prompt\<close>: \<^const>\<open>None\<close> when
    the call throws, \<open>Some None\<close> when the answer has no \<^verbatim>\<open>data\<close>, else the messages,
    the new session's id, the parts of the reply;
  \<^item> \<open>deleteOk\<close>, \<open>addOk\<close>, \<open>commitOk\<close>: whether \<^verbatim>\<open>client.session.delete\<close>,
    \<^verbatim>\<open>git add -A\<close> and \<^verbatim>\<open>git commit\<close> return rather than throw;
  \<^item> \<open>logOk\<close>: whether \<^verbatim>\<open>client.app.log\<close> returns rather than throws, for the
    log call with the given message (no two log calls of a run have the same message).
\<close>

record World =
  revParseOut :: "string option"
  messagesResp :: "Message list option option"
  statusOut :: "string option"
  createResp :: "string option option"
  promptResp :: "Part list option option"
  deleteOk :: bool
  addOk :: bool
  commitOk :: bool
  logOk :: "string \<Rightarrow> bool"

section \<open>Settings\<close>

record AutoCommitSettings =
  mode :: string
  commitModel :: "string option"
  maxCommitLength :: int

text \<open>
  A partial settings object (\<^verbatim>\<open>Partial<AutoCommitSettings>\<close>): a key the object lacks
  is \<^const>\<open>None\<close>. The key \<^verbatim>\<open>commitModel\<close> can be present with the value
  \<^verbatim>\<open>undefined\<close>, which is \<open>Some None\<close>.
\<close>

record PartialSettings =
  modeKey :: "string option"
  commitModelKey :: "string option option"
  maxCommitLengthKey :: "int option"

definition ZAutoCommitMode_parse :: "string \<Rightarrow> error + string" where
  "ZAutoCommitMode_parse v =
     (if v = ''disabled'' \<or> v = ''worktree'' \<or> v = ''enabled'' then Inr v
      else Inl (ZodError v))"

text \<open>\<^verbatim>\<open>Object.assign(settings, source)\<close>: every key of the source is written.\<close>

definition objectAssign :: "AutoCommitSettings \<Rightarrow> PartialSettings \<Rightarrow> AutoCommitSettings" where
  "objectAssign target source =
     \<lparr> mode = (case modeKey source of None \<Rightarrow> mode target | Some m \<Rightarrow> m),
       commitModel = (case commitModelKey source of None \<Rightarrow> commitModel target | Some c \<Rightarrow> c),
       maxCommitLength =
         (case maxCommitLengthKey source of None \<Rightarrow> maxCommitLength target | Some n \<Rightarrow> n) \<rparr>"

text \<open>
  The literal \<^verbatim>\<open>{ mode: "worktree", maxCommitLength: 10000, ...fileSettings }\<close>, where
  \<open>fileSettings\<close> is what \<^verbatim>\<open>loadSettingsFromFile\<close> returned: \<^const>\<open>None\<close> for
  \<^verbatim>\<open>null\<close> (no file, or a file the schema rejects), else the keys the schema accepted.
\<close>

definition withDefaults :: "PartialSettings option \<Rightarrow> PartialSettings" where
  "withDefaults fileSettings =
     (case fileSettings of
        None \<Rightarrow> \<lparr> modeKey = Some ''worktree'', commitModelKey = None,
                  maxCommitLengthKey = Some 10000 \<rparr>
      | Some f \<Rightarrow>
          \<lparr> modeKey = Some (case modeKey f of None \<Rightarrow> ''worktree'' | Some m \<Rightarrow> m),
            commitModelKey = commitModelKey f,
            maxCommitLengthKey =
              Some (case maxCommitLengthKey f of None \<Rightarrow> 10000 | Some n \<Rightarrow> n) \<rparr>)"

text \<open>The settings object built when the plugin is loaded.\<close>

definition initialSettings :: "PartialSettings option \<Rightarrow> AutoCommitSettings" where
  "initialSettings fileSettings =
     (case fileSettings of
        None \<Rightarrow> \<lparr> mode = ''worktree'', commitModel = None, maxCommitLength = 10000 \<rparr>
      | Some f \<Rightarrow>
          \<lparr> mode = (case modeKey f of None \<Rightarrow> ''worktree'' | Some m \<Rightarrow> m),
            commitModel = (case commitModelKey f of None \<Rightarrow> None | Some c \<Rightarrow> c),
            maxCommitLength = (case maxCommitLengthKey f of None \<Rightarrow> 10000 | Some n \<Rightarrow> n) \<rparr>)"

record SetArgs =
  argMode :: "string option"
  argCommitModel :: "string option"
  argMaxCommitLength :: "int option"

definition getSettingsTool :: "AutoCommitSettings \<Rightarrow> AutoCommitSettings" where
  "getSettingsTool settings = settings"

text \<open>
  The tools return the settings they print and leave the settings object in the state of
  the second component. \<^verbatim>\<open>args.commitModel || undefined\<close> turns the empty string into
  \<^verbatim>\<open>undefined\<close>.
\<close>

definition setSettingsTool ::
  "SetArgs \<Rightarrow> AutoCommitSettings \<Rightarrow> (error + AutoCommitSettings) \<times> AutoCommitSettings" where
  "setSettingsTool args settings =
     (let update0 = \<lparr> modeKey = None, commitModelKey = None, maxCommitLengthKey = None \<rparr>;
          parsed = (case argMode args of
                      None \<Rightarrow> Inr update0
                    | Some v \<Rightarrow> (case ZAutoCommitMode_parse v of
                                  Inl e \<Rightarrow> Inl e
                                | Inr m \<Rightarrow> Inr (update0 \<lparr> modeKey := Some m \<rparr>)))
      in case parsed of
           Inl e \<Rightarrow> (Inl (Error ''Failed to update settings: '' (Some e)), settings)
         | Inr update1 \<Rightarrow>
             (let update2 = (case argCommitModel args of
                               None \<Rightarrow> update1
                             | Some c \<Rightarrow>
                                 update1 \<lparr> commitModelKey := Some (if c = [] then None else Some c) \<rparr>);
                  update3 = (case argMaxCommitLength args of
                               None \<Rightarrow> update2
                             | Some n \<Rightarrow> update2 \<lparr> maxCommitLengthKey := Some n \<rparr>);
                  settings' = objectAssign settings update3
              in (Inr settings', settings')))"

definition resetSettingsTool ::
  "PartialSettings option \<Rightarrow> AutoCommitSettings \<Rightarrow>
     (error + AutoCommitSettings) \<times> AutoCommitSettings" where
  "resetSettingsTool fileSettings settings =
     (let defaults = withDefaults fileSettings;
          settings' = objectAssign settings defaults
      in (Inr settings', settings'))"

section \<open>Awaited calls\<close>

text \<open>
  An asynchronous computation of the plugin: the value it returns or the value it throws
  (\<^const>\<open>Inl\<close>), and the steps it made up to there. \<open>bindE\<close> is \<^verbatim>\<open>await\<close> followed by
  the rest of the block, \<open>catchE\<close> is \<^verbatim>\<open>try { ... } catch (error) { ... }\<close>.
\<close>

type_synonym 'a eff = "(error + 'a) \<times> step list"

definition returnE :: "'a \<Rightarrow> 'a eff" where
  "returnE x = (Inr x, [])"

definition throwE :: "error \<Rightarrow> 'a eff" where
  "throwE e = (Inl e, [])"

definition bindE :: "'a eff \<Rightarrow> ('a \<Rightarrow> 'b eff) \<Rightarrow> 'b eff" where
  "bindE m k =
     (case m of
        (Inl e, steps) \<Rightarrow> (Inl e, steps)
      | (Inr x, steps) \<Rightarrow> (case k x of (r, steps') \<Rightarrow> (r, steps @ steps')))"

definition catchE :: "'a eff \<Rightarrow> (error \<Rightarrow> 'a eff) \<Rightarrow> 'a eff" where
  "catchE m h =
     (case m of
        (Inl e, steps) \<Rightarrow> (case h e of (r, steps') \<Rightarrow> (r, steps @ steps'))
      | (Inr x, steps) \<Rightarrow> (Inr x, steps))"

text \<open>One call of a collaborator: the step, and the answer or the rejection.\<close>

definition callE :: "step \<Rightarrow> 'a option \<Rightarrow> 'a eff" where
  "callE s answer =
     (case answer of None \<Rightarrow> (Inl (Rejected s), [s]) | Some x \<Rightarrow> (Inr x, [s]))"

text \<open>A function of the plugin that catches everything itself and always returns.\<close>

definition liftE :: "'a \<times> step list \<Rightarrow> 'a eff" where
  "liftE p = (Inr (fst p), snd p)"

definition logE :: "World \<Rightarrow> string \<Rightarrow> string \<Rightarrow> unit eff" where
  "logE w level message =
     callE (Log level message) (if logOk w message then Some () else None)"

section \<open>Repository probes and the commit\<close>

text \<open>Both probes catch whatever the shell throws and answer false.\<close>

definition isWorktree :: "World \<Rightarrow> string \<Rightarrow> bool \<times> step list" where
  "isWorktree w directory =
     (case revParseOut w of
        None \<Rightarrow> (False, [GitRevParse])
      | Some out \<Rightarrow> (js_trim out \<noteq> directory, [GitRevParse]))"

definition hasChanges :: "World \<Rightarrow> bool \<times> step list" where
  "hasChanges w =
     (case statusOut w of
        None \<Rightarrow> (False, [GitStatus])
      | Some out \<Rightarrow> (0 < length (js_trim out), [GitStatus]))"

text \<open>
  \<^verbatim>\<open>makeCommit\<close> has two \<^verbatim>\<open>try\<close> blocks, the first around the staging and its two
  log calls, the second around the commit and its log call; each \<^verbatim>\<open>catch\<close> logs and
  returns false.
\<close>

definition makeCommit :: "World \<Rightarrow> string \<Rightarrow> bool eff" where
  "makeCommit w message =
     bindE
       (catchE
          (bindE (logE w ''info'' ''Staging all changes'') (\<lambda>_.
           bindE (callE GitAdd (if addOk w then Some () else None)) (\<lambda>_.
           bindE (logE w ''info'' ''Creating commit'') (\<lambda>_.
           returnE True))))
          (\<lambda>e. bindE (logE w ''error'' ''Failed to stage changes'') (\<lambda>_. returnE False)))
       (\<lambda>staged.
          if \<not> staged then returnE False
          else
            catchE
              (bindE (callE (GitCommit message) (if commitOk w then Some () else None)) (\<lambda>_.
               bindE (logE w ''info'' ''Commit created successfully'') (\<lambda>_.
               returnE True)))
              (\<lambda>e. bindE (logE w ''error'' ''Failed to commit changes'') (\<lambda>_. returnE False)))"

section \<open>The commit summary\<close>

definition summaryPrompt :: "LastTurn \<Rightarrow> string" where
  "summaryPrompt turn =
     ''Generate a one-line commit message (max 50 characters) for this turn.'' @ [NL, NL] @
     ''User prompt: '' @ userPrompt turn @ [NL, NL] @
     ''LLM response: '' @ assistantResponse turn @ [NL, NL] @
     ''Return ONLY the commit message, nothing else.''"

text \<open>
  The \<^verbatim>\<open>try\<close> block of \<^verbatim>\<open>generateCommitSummary\<close>. An answer without \<^verbatim>\<open>data\<close>
  gives an undefined summary, which \<^verbatim>\<open>!summary\<close> treats as the empty one.
\<close>

definition summaryAttempt :: "World \<Rightarrow> string \<Rightarrow> string eff" where
  "summaryAttempt w prompt =
     bindE (callE SessionCreate (createResp w)) (\<lambda>tempSession.
       case tempSession of
         None \<Rightarrow> throwE (Error ''Failed to create temporary session'' None)
       | Some sid \<Rightarrow>
           bindE (callE (SessionPrompt sid prompt) (promptResp w)) (\<lambda>result.
             (let summary = (case result of
                               None \<Rightarrow> None
                             | Some ps \<Rightarrow> Some (js_trim (js_join [NL] (textParts ps))))
              in case summary of
                   None \<Rightarrow> throwE (Error ''No text response from commit summary prompt'' None)
                 | Some text \<Rightarrow>
                     if text = [] then
                       throwE (Error ''No text response from commit summary prompt'' None)
                     else
                       bindE (callE (SessionDelete sid) (if deleteOk w then Some () else None)) (\<lambda>_.
                       bindE (logE w ''info'' ''Commit summary generated'') (\<lambda>_.
                       returnE text)))))"

text \<open>
  The first log call stands before the \<^verbatim>\<open>try\<close>, and the \<^verbatim>\<open>catch\<close> block logs before
  it returns the fallback.
\<close>

definition generateCommitSummary :: "World \<Rightarrow> LastTurn \<Rightarrow> AutoCommitSettings \<Rightarrow> string eff" where
  "generateCommitSummary w turn settings =
     bindE (logE w ''info'' ''Generating commit summary'') (\<lambda>_.
       catchE (summaryAttempt w (summaryPrompt turn))
         (\<lambda>e. bindE (logE w ''error''
                        ''Failed to generate commit summary using temporary session'') (\<lambda>_.
               returnE ''Auto-commit'')))"

section \<open>The event handler\<close>

datatype Event = SessionIdle string | OtherEvent string

record State =
  settings :: AutoCommitSettings
  lastCommittedTurnID :: "string option"

definition composeMessage :: "string \<Rightarrow> LastTurn \<Rightarrow> string" where
  "composeMessage summary turn =
     summary @ [NL, NL] @ ''## User Prompt'' @ [NL] @ userPrompt turn @ [NL, NL] @
     ''## LLM Response'' @ [NL] @ assistantResponse turn"

text \<open>\<^verbatim>\<open>response.data ?? []\<close>.\<close>

definition dataOrEmpty :: "Message list option \<Rightarrow> Message list" where
  "dataOrEmpty data = (case data of None \<Rightarrow> [] | Some ms \<Rightarrow> ms)"

text \<open>The \<^verbatim>\<open>try\<close>/\<^verbatim>\<open>catch\<close> at the end of the handler.\<close>

definition commitStage :: "World \<Rightarrow> AutoCommitSettings \<Rightarrow> LastTurn \<Rightarrow> unit eff" where
  "commitStage w s turn =
     catchE
       (bindE (generateCommitSummary w turn s) (\<lambda>summary.
          (let commitMessage = composeMessage summary turn
           in bindE (logE w ''info'' ''Created commit message'') (\<lambda>_.
                (let truncatedMessage = truncateCommitMessage commitMessage (maxCommitLength s)
                 in bindE (makeCommit w truncatedMessage) (\<lambda>success.
                      if success then logE w ''info'' ''Committed changes successfully''
                      else returnE ()))))))
       (\<lambda>e. logE w ''error'' ''Error during auto-commit'')"

text \<open>
  The handler from \<^verbatim>\<open>getLastTurn(messages)\<close> on: what it returns or throws, the state it
  leaves and its steps. The marker is written right after the dedup check, so the state
  is the marked one whatever happens later in the run.
\<close>

definition turnStage ::
  "World \<Rightarrow> State \<Rightarrow> Message list \<Rightarrow> (error + unit) \<times> State \<times> step list" where
  "turnStage w st messages =
     (case getLastTurn messages of
        None \<Rightarrow>
          (case logE w ''info'' ''No turn found in messages'' of (r, steps) \<Rightarrow> (r, st, steps))
      | Some turn \<Rightarrow>
          if Some (userMessageID turn) = lastCommittedTurnID st then
            (case logE w ''info'' ''Turn already committed, skipping'' of
               (r, steps) \<Rightarrow> (r, st, steps))
          else
            (let st' = st \<lparr> lastCommittedTurnID := Some (userMessageID turn) \<rparr>
             in case
                  bindE (logE w ''info'' ''Processing new turn'') (\<lambda>_.
                  bindE (liftE (hasChanges w))
                    (\<lambda>hasUncommittedChanges.
                       if \<not> hasUncommittedChanges then
                         logE w ''info'' ''No changes to commit''
                       else
                         bindE (logE w ''info''
                                  ''Found uncommitted changes, generating commit summary'') (\<lambda>_.
                         commitStage w (settings st') turn)))
                of (r, steps) \<Rightarrow> (r, st', SetLastCommittedTurnID (userMessageID turn) # steps)))"

text \<open>
  The handler up to the session query: the messages to go on with, or \<^const>\<open>None\<close> when
  the handler returns at the mode gate.
\<close>

definition gate :: "string \<Rightarrow> World \<Rightarrow> string \<Rightarrow> State \<Rightarrow> Message list option eff" where
  "gate worktreeDir w sessionID st =
     bindE (logE w ''info'' ''Session idle event received'') (\<lambda>_.
       if mode (settings st) = ''disabled'' then
         bindE (logE w ''info'' ''Auto-commit disabled'') (\<lambda>_. returnE None)
       else
         bindE (liftE (isWorktree w worktreeDir)) (\<lambda>isInWorktree.
         bindE (logE w ''info'' ''Checked if in worktree'') (\<lambda>_.
           if mode (settings st) = ''worktree'' \<and> \<not> isInWorktree then
             bindE (logE w ''info'' ''Not in worktree, skipping commit'') (\<lambda>_. returnE None)
           else
             bindE (logE w ''info'' ''Fetching session messages'') (\<lambda>_.
             bindE (callE (SessionMessages sessionID) (messagesResp w)) (\<lambda>data.
             returnE (Some (dataOrEmpty data)))))))"

text \<open>
  One event. The first component is \<^const>\<open>Inl\<close> when the handler throws. \<open>worktreeDir\<close>
  is the \<^verbatim>\<open>worktree\<close> of the plugin input.
\<close>

definition eventHandler ::
  "string \<Rightarrow> World \<Rightarrow> Event \<Rightarrow> State \<Rightarrow> (error + unit) \<times> State \<times> step list" where
  "eventHandler worktreeDir w ev st =
     (case ev of
        OtherEvent t \<Rightarrow> (Inr (), st, [])
      | SessionIdle sessionID \<Rightarrow>
          (case gate worktreeDir w sessionID st of
             (Inl e, gateSteps) \<Rightarrow> (Inl e, st, gateSteps)
           | (Inr None, gateSteps) \<Rightarrow> (Inr (), st, gateSteps)
           | (Inr (Some messages), gateSteps) \<Rightarrow>
               (case turnStage w st messages of
                  (r, st', turnSteps) \<Rightarrow> (r, st', gateSteps @ turnSteps))))"

text \<open>
  A sequence of events handled by one plugin instance, each with the answers its run
  gets; the steps of all runs in order. A run that throws leaves the instance alive.
\<close>

fun runEvents :: "string \<Rightarrow> (Event \<times> World) list \<Rightarrow> State \<Rightarrow> State \<times> step list" where
  "runEvents worktreeDir [] st = (st, [])"
| "runEvents worktreeDir ((ev, w) # rest) st =
     (case eventHandler worktreeDir w ev st of
        (r, st', steps) \<Rightarrow>
          (case runEvents worktreeDir rest st' of
             (st'', steps') \<Rightarrow> (st'', steps @ steps')))"

section \<open>Observations on runs\<close>

text \<open>
  The steps of the commit pipeline: the change check, the summary generation through the
  temporary session, and the staging and commit.
\<close>

fun pipelineStep :: "step \<Rightarrow> bool" where
  "pipelineStep GitStatus = True"
| "pipelineStep SessionCreate = True"
| "pipelineStep (SessionPrompt sid prompt) = True"
| "pipelineStep (SessionDelete sid) = True"
| "pipelineStep GitAdd = True"
| "pipelineStep (GitCommit message) = True"
| "pipelineStep other = False"

text \<open>No pipeline step stands before the first write of the dedup marker.\<close>

fun markerFirst :: "step list \<Rightarrow> bool" where
  "markerFirst [] = True"
| "markerFirst (SetLastCommittedTurnID x # rest) = True"
| "markerFirst (s # rest) = (\<not> pipelineStep s \<and> markerFirst rest)"

text \<open>The id of the latest turn that the session query of a run shows, if any.\<close>

definition latestTurnID :: "World \<Rightarrow> string option" where
  "latestTurnID w =
     (case messagesResp w of
        None \<Rightarrow> None
      | Some data \<Rightarrow> map_option userMessageID (getLastTurn (dataOrEmpty data)))"

text \<open>
  The text-generation delegate fails: the temporary session is not created (the call
  throws or answers without data), the prompt call throws, or the text that comes back
  is absent or empty after trimming.
\<close>

definition delegateFails :: "World \<Rightarrow> bool" where
  "delegateFails w =
     (case createResp w of
        None \<Rightarrow> True
      | Some None \<Rightarrow> True
      | Some (Some sid) \<Rightarrow>
          (case promptResp w of
             None \<Rightarrow> True
           | Some None \<Rightarrow> True
           | Some (Some ps) \<Rightarrow> js_trim (js_join [NL] (textParts ps)) = []))"

text \<open>Every log call of the run returns.\<close>

definition loggerWorks :: "World \<Rightarrow> bool" where
  "loggerWorks w = (\<forall>message. logOk w message)"

section \<open>Example runs\<close>

text \<open>
  A world in which every collaborator answers and every log call returns: the repository root is \<open>/repo/wt\<close>, the
  tree has one changed file, and the summary delegate answers \<open>Add a file\<close>.
\<close>

definition worldWith :: "Message list \<Rightarrow> World" where
  "worldWith ms =
     \<lparr> revParseOut = Some (''/repo/wt'' @ [NL]),
       messagesResp = Some (Some ms),
       statusOut = Some (''?? file.txt'' @ [NL]),
       createResp = Some (Some ''ses_tmp''),
       promptResp = Some (Some [\<lparr> partType = ''text'', partText = Some ''Add a file'' \<rparr>]),
       deleteOk = True,
       addOk = True,
       commitOk = True,
       logOk = (\<lambda>message. True) \<rparr>"

definition turnX :: "Message list" where
  "turnX = [mkMessage ''user'' ''uX'' None [''Add file''],
            mkMessage ''assistant'' ''aX'' (Some ''uX'') [''Done'']]"

definition turnY :: "Message list" where
  "turnY = [mkMessage ''user'' ''uY'' None [''Fix bug''],
            mkMessage ''assistant'' ''aY'' (Some ''uY'') [''Fixed'']]"

definition enabledState :: State where
  "enabledState =
     \<lparr> settings = \<lparr> mode = ''enabled'', commitModel = None, maxCommitLength = 10000 \<rparr>,
       lastCommittedTurnID = None \<rparr>"



text \<open>
  A world in which the prompt call of the summary delegate throws and the log call of
  the \<^verbatim>\<open>catch\<close> block of \<^verbatim>\<open>generateCommitSummary\<close> throws as well.
\<close>

definition brokenLogWorld :: "Message list \<Rightarrow> World" where
  "brokenLogWorld ms =
     worldWith ms
       \<lparr> promptResp := None,
         logOk := (\<lambda>message.
                    message \<noteq> ''Failed to generate commit summary using temporary session'') \<rparr>"

section \<open>Properties of truncation\<close>

lemma length_ellipsis: "length ellipsis = 4"
  by (simp add: ellipsis_def)

lemma truncate_long:
  "maxLength < int (length message) \<Longrightarrow>
   truncateCommitMessage message maxLength = take (nat (maxLength - 4)) message @ ellipsis"
  by (simp add: truncateCommitMessage_def substring0_def length_ellipsis)

text \<open>
  Claim C7. For every message and every bound of at least 100: a message no longer than
  the bound is returned unchanged; a longer one is cut to exactly the bound, the result
  ends with the marker (a line feed and three dots), and its first \<open>maxLength - 4\<close>
  characters are those of the message.
\<close>

theorem truncateCommitMessage_exact:
  assumes "100 \<le> maxLength"
  shows "(int (length message) \<le> maxLength \<longrightarrow>
            truncateCommitMessage message maxLength = message) \<and>
         (maxLength < int (length message) \<longrightarrow>
            int (length (truncateCommitMessage message maxLength)) = maxLength \<and>
            suffix (NL # ''...'') (truncateCommitMessage message maxLength) \<and>
            take (nat (maxLength - 4)) (truncateCommitMessage message maxLength) =
              take (nat (maxLength - 4)) message)"
proof (intro conjI impI)
  assume "int (length message) \<le> maxLength"
  then show "truncateCommitMessage message maxLength = message"
    by (simp add: truncateCommitMessage_def)
next
  assume long: "maxLength < int (length message)"
  have eq: "truncateCommitMessage message maxLength =
              take (nat (maxLength - 4)) message @ ellipsis"
    using long by (rule truncate_long)
  have len: "length (take (nat (maxLength - 4)) message) = nat (maxLength - 4)"
    using long assms by simp
  show "int (length (truncateCommitMessage message maxLength)) = maxLength"
    using assms long by (simp add: eq length_ellipsis)
  show "suffix (NL # ''...'') (truncateCommitMessage message maxLength)"
    by (simp add: eq ellipsis_def suffix_def)
  show "take (nat (maxLength - 4)) (truncateCommitMessage message maxLength) =
          take (nat (maxLength - 4)) message"
    using len by (simp add: eq)
qed

theorem truncateCommitMessage_exact_witness:
  "(100::int) \<le> 100 \<and> (100::int) < int (length (replicate 150 (CHR ''a''))) \<and>
   int (length (truncateCommitMessage (replicate 150 (CHR ''a'')) 100)) = 100 \<and>
   suffix (NL # ''...'') (truncateCommitMessage (replicate 150 (CHR ''a'')) 100) \<and>
   truncateCommitMessage ''short'' 100 = ''short''"
  using truncateCommitMessage_exact [of 100 "replicate 150 (CHR ''a'')"]
        truncateCommitMessage_exact [of 100 "''short''"]
  by simp

section \<open>Properties of the last turn\<close>

lemma js_join_cons: "ys \<noteq> [] \<Longrightarrow> js_join sep (x # ys) = x @ sep @ js_join sep ys"
  by (cases ys) simp_all

lemma js_join_append:
  "xs \<noteq> [] \<Longrightarrow> ys \<noteq> [] \<Longrightarrow> js_join sep (xs @ ys) = js_join sep xs @ sep @ js_join sep ys"
proof (induction xs)
  case Nil
  then show ?case by simp
next
  case (Cons x xs)
  show ?case
  proof (cases "xs = []")
    case True
    with Cons.prems show ?thesis by (simp add: js_join_cons)
  next
    case False
    with Cons show ?thesis by (simp add: js_join_cons)
  qed
qed

lemma js_join_concat:
  "list_all (\<lambda>xs. xs \<noteq> []) xss \<Longrightarrow>
   js_join sep (concat xss) = js_join sep (map (js_join sep) xss)"
proof (induction xss)
  case Nil
  then show ?case by simp
next
  case (Cons xs xss)
  show ?case
  proof (cases "xss = []")
    case True
    then show ?thesis by simp
  next
    case False
    from Cons.prems have ne: "xs \<noteq> []" and rest: "list_all (\<lambda>xs. xs \<noteq> []) xss"
      by simp_all
    from False rest have "concat xss \<noteq> []"
      by (cases xss) auto
    with ne have "js_join sep (xs @ concat xss) = js_join sep xs @ sep @ js_join sep (concat xss)"
      by (rule js_join_append)
    also have "js_join sep (concat xss) = js_join sep (map (js_join sep) xss)"
      using rest by (rule Cons.IH)
    finally show ?thesis
      using False by (simp add: js_join_cons)
  qed
qed

lemma findLastUser_append:
  "n \<le> length xs \<Longrightarrow> findLastUser (xs @ ys) n = findLastUser xs n"
  by (induction n) (simp_all add: nth_append)

lemma findLastUser_snoc:
  "findLastUser (xs @ [x]) (Suc (length xs)) =
     (if role (info x) = ''user'' then Some x else findLastUser xs (length xs))"
  by (simp add: findLastUser_append)

lemma findLastUser_last:
  "role (info u) = ''user'' \<Longrightarrow> list_all (\<lambda>m. role (info m) \<noteq> ''user'') post \<Longrightarrow>
   findLastUser (pre @ u # post) (length (pre @ u # post)) = Some u"
proof (induction post rule: rev_induct)
  case Nil
  have "findLastUser (pre @ [u]) (Suc (length pre)) = Some u"
    using Nil.prems(1) by (simp add: findLastUser_snoc del: findLastUser.simps)
  then show ?case by simp
next
  case (snoc x post)
  have "findLastUser ((pre @ u # post) @ [x]) (Suc (length (pre @ u # post))) =
          findLastUser (pre @ u # post) (length (pre @ u # post))"
    using snoc.prems(2) findLastUser_snoc [of "pre @ u # post" x] by simp
  then show ?case using snoc by simp
qed

lemma findLastUser_none:
  "(findLastUser messages (length messages) = None) =
     list_all (\<lambda>m. role (info m) \<noteq> ''user'') messages"
proof (induction messages rule: rev_induct)
  case Nil
  then show ?case by simp
next
  case (snoc x xs)
  have "findLastUser (xs @ [x]) (Suc (length xs)) =
     (if role (info x) = ''user'' then Some x else findLastUser xs (length xs))"
    by (rule findLastUser_snoc)
  then show ?case using snoc by auto
qed

text \<open>
  Claim C6, as the code has it. The turn is anchored at the last user message of the
  list. Its prompt is the line-feed join of the anchor's text parts. Its response is the
  line-feed join of the text parts of all and only the assistant messages whose parent is
  the anchor, in list order and part order, wherever they stand in the list. A reply with
  no text part adds nothing to the join; when every reply has a text part, the response
  is the join of the per-message joins.
\<close>

theorem getLastTurn_flat_join:
  assumes "messages = pre @ u # post"
    and "role (info u) = ''user''"
    and "\<forall>m \<in> set post. role (info m) \<noteq> ''user''"
  shows "\<exists>turn. getLastTurn messages = Some turn \<and>
           userMessageID turn = msgID (info u) \<and>
           userPrompt turn = js_join [NL] (textParts (parts u)) \<and>
           assistantResponse turn =
             js_join [NL] (concat (map (\<lambda>m. textParts (parts m))
                                      (filter (repliesTo u) messages))) \<and>
           ((\<forall>m \<in> set messages. repliesTo u m \<longrightarrow> textParts (parts m) \<noteq> []) \<longrightarrow>
              assistantResponse turn = assistantResponse_spec u messages)"
proof -
  have anchor: "findLastUser messages (length messages) = Some u"
    using assms by (simp only: findLastUser_last list_all_iff)
  have flat: "map textOf (concat (map (\<lambda>m. filter isText (parts m)) ms)) =
              concat (map (\<lambda>m. textParts (parts m)) ms)" for ms
    by (simp add: map_concat textParts_def comp_def)
  have nested: "js_join [NL] (concat (map (\<lambda>m. textParts (parts m))
                                      (filter (repliesTo u) messages))) =
                assistantResponse_spec u messages"
    if "\<forall>m \<in> set messages. repliesTo u m \<longrightarrow> textParts (parts m) \<noteq> []"
  proof -
    have "list_all (\<lambda>xs. xs \<noteq> [])
            (map (\<lambda>m. textParts (parts m)) (filter (repliesTo u) messages))"
      using that by (simp add: list_all_iff)
    then show ?thesis
      by (simp add: js_join_concat assistantResponse_spec_def comp_def)
  qed
  show ?thesis
    using nested by (simp add: getLastTurn_def anchor flat Let_def)
qed

theorem getLastTurn_flat_join_witness:
  "interleavedHistory =
     [mkMessage ''user'' ''u1'' None [''first''], mkMessage ''assistant'' ''a1'' (Some ''u1'') [''x'']]
     @ mkMessage ''user'' ''u2'' None [''second'', ''prompt'']
     # [mkMessage ''assistant'' ''a2'' (Some ''u1'') [''old''],
        mkMessage ''assistant'' ''a3'' (Some ''u2'') [''p'', ''q''],
        mkMessage ''assistant'' ''a4'' (Some ''u2'') [''r'']] \<and>
   getLastTurn interleavedHistory =
     Some \<lparr> userMessageID = ''u2'',
            userPrompt = ''second'' @ [NL] @ ''prompt'',
            assistantResponse = ''p'' @ [NL] @ ''q'' @ [NL] @ ''r'' \<rparr> \<and>
   assistantResponse_spec (mkMessage ''user'' ''u2'' None [''second'', ''prompt''])
     interleavedHistory = ''p'' @ [NL] @ ''q'' @ [NL] @ ''r''"
  using getLastTurn_flat_join [of interleavedHistory
          "[mkMessage ''user'' ''u1'' None [''first''],
            mkMessage ''assistant'' ''a1'' (Some ''u1'') [''x'']]"
          "mkMessage ''user'' ''u2'' None [''second'', ''prompt'']"
          "[mkMessage ''assistant'' ''a2'' (Some ''u1'') [''old''],
            mkMessage ''assistant'' ''a3'' (Some ''u2'') [''p'', ''q''],
            mkMessage ''assistant'' ''a4'' (Some ''u2'') [''r'']]"]
  by (auto simp add: interleavedHistory_def mkMessage_def repliesTo_def textParts_def
        isText_def textOf_def)

text \<open>
  Claim C6 as stated fails: with a reply that has no text part, the nested join of the
  specification starts with a line feed and the code's response does not.
\<close>

theorem getLastTurn_nested_join_counterexample:
  "getLastTurn silentReplyHistory =
     Some \<lparr> userMessageID = ''u1'', userPrompt = ''Add file'', assistantResponse = ''Done'' \<rparr> \<and>
   getLastTurn_spec silentReplyHistory =
     Some \<lparr> userMessageID = ''u1'', userPrompt = ''Add file'',
            assistantResponse = NL # ''Done'' \<rparr> \<and>
   getLastTurn silentReplyHistory \<noteq> getLastTurn_spec silentReplyHistory"
  by (simp add: getLastTurn_def getLastTurn_spec_def silentReplyHistory_def mkMessage_def
        repliesTo_def assistantResponse_spec_def textParts_def isText_def textOf_def)

section \<open>Properties of the settings tools\<close>

text \<open>
  Claim C2, at the input where the code departs from it: \<^verbatim>\<open>setAutoCommitSettings\<close> with
  \<^verbatim>\<open>maxCommitLength = 50\<close> does not fail; it returns and stores the value 50. (The mode
  is checked by the schema before anything is written; the length is written unchecked.)
\<close>

theorem setSettingsTool_accepts_short_maxCommitLength:
  "setSettingsTool \<lparr> argMode = None, argCommitModel = None, argMaxCommitLength = Some 50 \<rparr>
     (initialSettings None) =
   (Inr \<lparr> mode = ''worktree'', commitModel = None, maxCommitLength = 50 \<rparr>,
    \<lparr> mode = ''worktree'', commitModel = None, maxCommitLength = 50 \<rparr>)"
  by (simp add: setSettingsTool_def initialSettings_def objectAssign_def Let_def)

text \<open>
  Claim C3, at the reachable state where it fails: after loading without a settings file
  and one call of \<^verbatim>\<open>setAutoCommitSettings\<close> with a valid mode and
  \<^verbatim>\<open>maxCommitLength = 50\<close>, the settings in memory hold 50, which is below 100.
\<close>

theorem settings_bound_broken_after_set:
  "maxCommitLength (snd (setSettingsTool
       \<lparr> argMode = Some ''enabled'', argCommitModel = None, argMaxCommitLength = Some 50 \<rparr>
       (initialSettings None))) = 50 \<and>
   \<not> 100 \<le> maxCommitLength (snd (setSettingsTool
       \<lparr> argMode = Some ''enabled'', argCommitModel = None, argMaxCommitLength = Some 50 \<rparr>
       (initialSettings None)))"
  by (simp add: setSettingsTool_def initialSettings_def objectAssign_def ZAutoCommitMode_parse_def Let_def)

text \<open>
  Claim C4, at the input where the code departs from it: with no settings file, a
  \<^verbatim>\<open>commitModel\<close> stored by \<^verbatim>\<open>setAutoCommitSettings\<close> is still there after
  \<^verbatim>\<open>resetAutoCommitSettings\<close>, because \<^verbatim>\<open>Object.assign\<close> writes only the keys of
  its source and the defaults have no \<^verbatim>\<open>commitModel\<close> key.
\<close>

theorem resetSettingsTool_keeps_commitModel:
  "commitModel (snd (resetSettingsTool None
      (snd (setSettingsTool
         \<lparr> argMode = None, argCommitModel = Some ''provider/model'', argMaxCommitLength = None \<rparr>
         (initialSettings None))))) = Some ''provider/model''"
  by (simp add: resetSettingsTool_def setSettingsTool_def initialSettings_def objectAssign_def
        withDefaults_def Let_def)

text \<open>
  Claim C10. A call of \<^verbatim>\<open>setAutoCommitSettings\<close> whose mode is omitted or valid returns,
  and afterwards \<^verbatim>\<open>commitModel\<close> is unset when the argument was the empty string, is the
  argument verbatim when it was a non-empty string, and is the previous value when the
  argument was omitted.
\<close>

theorem setSettingsTool_commitModel:
  assumes "argMode args = None \<or> argMode args = Some ''disabled'' \<or>
           argMode args = Some ''worktree'' \<or> argMode args = Some ''enabled''"
  shows "\<exists>s'. setSettingsTool args s = (Inr s', s') \<and>
           commitModel s' =
             (case argCommitModel args of
                None \<Rightarrow> commitModel s
              | Some c \<Rightarrow> if c = [] then None else Some c)"
  using assms
  by (auto simp add: setSettingsTool_def objectAssign_def ZAutoCommitMode_parse_def Let_def
        split: option.splits)

theorem setSettingsTool_commitModel_witness:
  "setSettingsTool \<lparr> argMode = Some ''enabled'', argCommitModel = Some [], argMaxCommitLength = None \<rparr>
     \<lparr> mode = ''worktree'', commitModel = Some ''provider/model'', maxCommitLength = 10000 \<rparr> =
     (Inr \<lparr> mode = ''enabled'', commitModel = None, maxCommitLength = 10000 \<rparr>,
      \<lparr> mode = ''enabled'', commitModel = None, maxCommitLength = 10000 \<rparr>) \<and>
   commitModel (snd (setSettingsTool
       \<lparr> argMode = None, argCommitModel = Some ''other'', argMaxCommitLength = None \<rparr>
       \<lparr> mode = ''worktree'', commitModel = Some ''provider/model'', maxCommitLength = 10000 \<rparr>))
     = Some ''other'' \<and>
   commitModel (snd (setSettingsTool
       \<lparr> argMode = None, argCommitModel = None, argMaxCommitLength = Some 200 \<rparr>
       \<lparr> mode = ''worktree'', commitModel = Some ''provider/model'', maxCommitLength = 10000 \<rparr>))
     = Some ''provider/model''"
  using setSettingsTool_commitModel
          [of "\<lparr> argMode = Some ''enabled'', argCommitModel = Some [], argMaxCommitLength = None \<rparr>"
              "\<lparr> mode = ''worktree'', commitModel = Some ''provider/model'', maxCommitLength = 10000 \<rparr>"]
  by (simp add: setSettingsTool_def objectAssign_def ZAutoCommitMode_parse_def Let_def)

section \<open>Properties of awaited calls\<close>

lemma snd_bindE:
  "snd (bindE m k) = snd m @ (case fst m of Inl e \<Rightarrow> [] | Inr x \<Rightarrow> snd (k x))"
  by (cases m; cases "fst m") (auto simp add: bindE_def split: prod.splits)

lemma snd_catchE:
  "snd (catchE m h) = snd m @ (case fst m of Inl e \<Rightarrow> snd (h e) | Inr x \<Rightarrow> [])"
  by (cases m; cases "fst m") (auto simp add: catchE_def split: prod.splits)

lemma snd_callE: "snd (callE s answer) = [s]"
  by (simp add: callE_def split: option.splits)

lemma snd_logE: "snd (logE w level message) = [Log level message]"
  by (simp add: logE_def snd_callE)

lemma snd_returnE: "snd (returnE x) = []"
  by (simp add: returnE_def)

lemma snd_throwE: "snd (throwE e) = []"
  by (simp add: throwE_def)

lemma snd_liftE: "snd (liftE p) = snd p"
  by (simp add: liftE_def)

lemmas snd_eff = snd_bindE snd_catchE snd_callE snd_logE snd_returnE snd_throwE snd_liftE

lemma fst_bindE:
  "fst (bindE m k) = (case fst m of Inl e \<Rightarrow> Inl e | Inr x \<Rightarrow> fst (k x))"
  by (cases m; cases "fst m") (auto simp add: bindE_def split: prod.splits)

lemma fst_catchE:
  "fst (catchE m h) = (case fst m of Inl e \<Rightarrow> fst (h e) | Inr x \<Rightarrow> Inr x)"
  by (cases m; cases "fst m") (auto simp add: catchE_def split: prod.splits)

lemma fst_callE:
  "fst (callE s answer) = (case answer of None \<Rightarrow> Inl (Rejected s) | Some x \<Rightarrow> Inr x)"
  by (simp add: callE_def split: option.splits)

lemma fst_logE:
  "fst (logE w level message) =
     (if logOk w message then Inr () else Inl (Rejected (Log level message)))"
  by (simp add: logE_def fst_callE)

lemma fst_returnE: "fst (returnE x) = Inr x"
  by (simp add: returnE_def)

lemma fst_throwE: "fst (throwE e) = Inl e"
  by (simp add: throwE_def)

lemma fst_liftE: "fst (liftE p) = Inr (fst p)"
  by (simp add: liftE_def)

lemmas fst_eff = fst_bindE fst_catchE fst_callE fst_logE fst_returnE fst_throwE fst_liftE

lemma logE_works: "loggerWorks w \<Longrightarrow> logE w level message = (Inr (), [Log level message])"
  by (simp add: loggerWorks_def logE_def callE_def)

lemma bindE_Inr: "bindE (Inr x, steps) k = (fst (k x), steps @ snd (k x))"
  by (simp add: bindE_def split: prod.splits)

lemma bindE_Inl: "bindE (Inl e, steps) k = (Inl e, steps)"
  by (simp add: bindE_def)

lemma catchE_Inr: "catchE (Inr x, steps) h = (Inr x, steps)"
  by (simp add: catchE_def)

lemma catchE_Inl: "catchE (Inl e, steps) h = (fst (h e), steps @ snd (h e))"
  by (simp add: catchE_def split: prod.splits)

lemmas eff_simps = bindE_Inr bindE_Inl catchE_Inr catchE_Inl returnE_def throwE_def

section \<open>The steps of a run\<close>

lemma makeCommit_counts:
  "count_list (snd (makeCommit w m)) GitStatus = 0 \<and>
   count_list (snd (makeCommit w m)) GitAdd \<le> 1"
  by (auto simp add: makeCommit_def snd_eff split: sum.splits if_splits)

lemma summaryAttempt_counts:
  "count_list (snd (summaryAttempt w p)) GitStatus = 0 \<and>
   count_list (snd (summaryAttempt w p)) GitAdd = 0"
  by (auto simp add: summaryAttempt_def snd_eff Let_def split: sum.splits if_splits option.splits)

lemma generateCommitSummary_counts:
  "count_list (snd (generateCommitSummary w t s)) GitStatus = 0 \<and>
   count_list (snd (generateCommitSummary w t s)) GitAdd = 0"
  using summaryAttempt_counts [of w "summaryPrompt t"]
  by (auto simp add: generateCommitSummary_def snd_eff split: sum.splits)

lemma commitStage_counts:
  "count_list (snd (commitStage w s t)) GitStatus = 0 \<and>
   count_list (snd (commitStage w s t)) GitAdd \<le> 1"
  using generateCommitSummary_counts [of w t s]
        makeCommit_counts [of w]
  by (auto simp add: commitStage_def snd_eff Let_def split: sum.splits if_splits)

lemma snd_isWorktree: "snd (isWorktree w dir) = [GitRevParse]"
  by (simp add: isWorktree_def split: option.splits)

lemma snd_hasChanges: "snd (hasChanges w) = [GitStatus]"
  by (simp add: hasChanges_def split: option.splits)

lemma no_pipeline_counts:
  "filter pipelineStep steps = [] \<Longrightarrow>
   count_list steps GitStatus = 0 \<and> count_list steps GitAdd = 0"
  by (induction steps) (auto split: if_splits)

lemma markerFirst_append:
  "filter pipelineStep pre = [] \<Longrightarrow> markerFirst rest \<Longrightarrow> markerFirst (pre @ rest)"
proof (induction pre)
  case Nil
  then show ?case by simp
next
  case (Cons s pre)
  then show ?case by (cases s) (auto split: if_splits)
qed

lemma turnStage_dedup:
  "getLastTurn ms = Some turn \<Longrightarrow> lastCommittedTurnID st = Some (userMessageID turn) \<Longrightarrow>
   fst (snd (turnStage w st ms)) = st \<and>
   snd (snd (turnStage w st ms)) = [Log ''info'' ''Turn already committed, skipping'']"
  using snd_logE [of w "''info''" "''Turn already committed, skipping''"]
  by (cases "logE w ''info'' ''Turn already committed, skipping''") (simp add: turnStage_def)

lemma turnStage_shape:
  assumes "turnStage w st ms = (r, st', steps)"
  shows "settings st' = settings st \<and> markerFirst steps \<and>
         count_list steps GitStatus \<le> 1 \<and> count_list steps GitAdd \<le> 1 \<and>
         (filter pipelineStep steps = [] \<and> st' = st \<or>
          (\<exists>turn. getLastTurn ms = Some turn \<and>
                  lastCommittedTurnID st \<noteq> Some (userMessageID turn) \<and>
                  lastCommittedTurnID st' = Some (userMessageID turn)))"
proof (cases "getLastTurn ms")
  case None
  with assms snd_logE [of w "''info''" "''No turn found in messages''"]
  show ?thesis
    by (cases "logE w ''info'' ''No turn found in messages''") (auto simp add: turnStage_def)
next
  case (Some turn)
  show ?thesis
  proof (cases "lastCommittedTurnID st = Some (userMessageID turn)")
    case True
    with Some assms turnStage_dedup [of ms turn st w] show ?thesis by auto
  next
    case False
    let ?body = "bindE (logE w ''info'' ''Processing new turn'') (\<lambda>_.
                  bindE (liftE (hasChanges w))
                    (\<lambda>hasUncommittedChanges.
                       if \<not> hasUncommittedChanges then
                         logE w ''info'' ''No changes to commit''
                       else
                         bindE (logE w ''info''
                                  ''Found uncommitted changes, generating commit summary'') (\<lambda>_.
                         commitStage w (settings (st \<lparr> lastCommittedTurnID := Some (userMessageID turn) \<rparr>)) turn)))"
    have ts: "turnStage w st ms =
            (fst ?body, st \<lparr> lastCommittedTurnID := Some (userMessageID turn) \<rparr>,
             SetLastCommittedTurnID (userMessageID turn) # snd ?body)"
      using Some False by (cases ?body) (auto simp add: turnStage_def Let_def)
    have counts: "count_list (snd ?body) GitStatus \<le> 1 \<and> count_list (snd ?body) GitAdd \<le> 1"
      using commitStage_counts [of w "settings st" turn]
      by (auto simp add: snd_eff snd_hasChanges split: sum.splits if_splits)
    from assms ts have "st' = st \<lparr> lastCommittedTurnID := Some (userMessageID turn) \<rparr>"
      and "steps = SetLastCommittedTurnID (userMessageID turn) # snd ?body"
      by simp_all
    with counts Some False show ?thesis by auto
  qed
qed

lemma gate_steps:
  "filter pipelineStep (snd (gate dir w sid st)) = []"
  by (auto simp add: gate_def snd_eff snd_isWorktree split: sum.splits if_splits)

lemma gate_messages:
  "fst (gate dir w sid st) = Inr (Some ms) \<Longrightarrow>
   \<exists>data. messagesResp w = Some data \<and> ms = dataOrEmpty data"
  by (auto simp add: gate_def fst_eff split: sum.splits if_splits option.splits)

lemma eventHandler_shape:
  assumes "eventHandler dir w ev st = (r, st', steps)"
  shows "settings st' = settings st \<and> markerFirst steps \<and>
         count_list steps GitStatus \<le> 1 \<and> count_list steps GitAdd \<le> 1 \<and>
         (filter pipelineStep steps = [] \<and> st' = st \<or>
          (latestTurnID w \<noteq> None \<and> lastCommittedTurnID st \<noteq> latestTurnID w \<and>
           lastCommittedTurnID st' = latestTurnID w))"
proof (cases ev)
  case (OtherEvent t)
  with assms show ?thesis by (auto simp add: eventHandler_def)
next
  case (SessionIdle sid)
  obtain g gs where g: "gate dir w sid st = (g, gs)"
    by (cases "gate dir w sid st") auto
  have clean: "filter pipelineStep gs = []"
    using gate_steps [of dir w sid st] g by simp
  then have zero: "count_list gs GitStatus = 0 \<and> count_list gs GitAdd = 0"
    by (rule no_pipeline_counts)
  have mf: "markerFirst gs"
    using markerFirst_append [OF clean, of "[]"] by simp
  show ?thesis
  proof (cases g)
    case (Inl e)
    with assms SessionIdle g clean zero mf show ?thesis
      by (auto simp add: eventHandler_def)
  next
    case (Inr a)
    show ?thesis
    proof (cases a)
      case None
      with Inr assms SessionIdle g clean zero mf show ?thesis
        by (auto simp add: eventHandler_def)
    next
      case (Some ms)
      obtain data where d: "messagesResp w = Some data" "ms = dataOrEmpty data"
        using gate_messages [of dir w sid st ms] g Inr Some by auto
      have lt: "latestTurnID w = map_option userMessageID (getLastTurn ms)"
        using d by (simp add: latestTurnID_def)
      obtain r2 st2 steps2 where ts: "turnStage w st ms = (r2, st2, steps2)"
        by (cases "turnStage w st ms") auto
      from assms SessionIdle g Inr Some ts
      have eq: "st' = st2" "steps = gs @ steps2"
        by (auto simp add: eventHandler_def)
      note shape = turnStage_shape [OF ts]
      have m2: "markerFirst (gs @ steps2)"
        using markerFirst_append [OF clean] shape by simp
      from shape clean zero m2 show ?thesis
        unfolding eq lt by auto
    qed
  qed
qed

lemma runEvents_after_marker:
  assumes "lastCommittedTurnID st = Some x"
    and "list_all (\<lambda>(e, w). latestTurnID w = Some x) evs"
  shows "fst (runEvents dir evs st) = st \<and> filter pipelineStep (snd (runEvents dir evs st)) = []"
  using assms
proof (induction evs)
  case Nil
  then show ?case by simp
next
  case (Cons p evs)
  obtain e w where p: "p = (e, w)" by (cases p)
  obtain r st' steps where run: "eventHandler dir w e st = (r, st', steps)"
    by (cases "eventHandler dir w e st") auto
  from Cons.prems p have lw: "latestTurnID w = Some x" by simp
  from eventHandler_shape [OF run] lw Cons.prems(1)
  have same: "st' = st" "filter pipelineStep steps = []" by auto
  from Cons.IH Cons.prems have
    "fst (runEvents dir evs st) = st \<and> filter pipelineStep (snd (runEvents dir evs st)) = []"
    by simp
  then show ?case
    using p run same by (cases "runEvents dir evs st") auto
qed

lemma runEvents_one_attempt:
  assumes "list_all (\<lambda>(e, w). latestTurnID w = Some x) evs"
  shows "count_list (snd (runEvents dir evs st)) GitStatus \<le> 1 \<and>
         count_list (snd (runEvents dir evs st)) GitAdd \<le> 1"
  using assms
proof (induction evs arbitrary: st)
  case Nil
  then show ?case by simp
next
  case (Cons p evs)
  obtain e w where p: "p = (e, w)" by (cases p)
  obtain r st' steps where run: "eventHandler dir w e st = (r, st', steps)"
    by (cases "eventHandler dir w e st") auto
  obtain st'' steps' where rest: "runEvents dir evs st' = (st'', steps')"
    by (cases "runEvents dir evs st'") auto
  from Cons.prems p have lw: "latestTurnID w = Some x"
    and all: "list_all (\<lambda>(e, w). latestTurnID w = Some x) evs" by simp_all
  have whole: "snd (runEvents dir (p # evs) st) = steps @ steps'"
    using p run rest by simp
  note shape = eventHandler_shape [OF run]
  show ?case
  proof (cases "filter pipelineStep steps = []")
    case True
    then have "count_list steps GitStatus = 0 \<and> count_list steps GitAdd = 0"
      by (rule no_pipeline_counts)
    moreover from Cons.IH [OF all, of st'] rest
    have "count_list steps' GitStatus \<le> 1 \<and> count_list steps' GitAdd \<le> 1" by simp
    ultimately show ?thesis by (simp add: whole)
  next
    case False
    with shape lw have "lastCommittedTurnID st' = Some x" by auto
    from runEvents_after_marker [OF this all, of dir] rest
    have "filter pipelineStep steps' = []" by simp
    then have "count_list steps' GitStatus = 0 \<and> count_list steps' GitAdd = 0"
      by (rule no_pipeline_counts)
    with shape show ?thesis by (simp add: whole)
  qed
qed

section \<open>Runs whose log calls return\<close>

lemma makeCommit_works:
  "loggerWorks w \<Longrightarrow>
   makeCommit w message =
     (if \<not> addOk w then
        (Inr False, [Log ''info'' ''Staging all changes'', GitAdd,
                     Log ''error'' ''Failed to stage changes''])
      else if \<not> commitOk w then
        (Inr False, [Log ''info'' ''Staging all changes'', GitAdd,
                     Log ''info'' ''Creating commit'', GitCommit message,
                     Log ''error'' ''Failed to commit changes''])
      else
        (Inr True, [Log ''info'' ''Staging all changes'', GitAdd,
                    Log ''info'' ''Creating commit'', GitCommit message,
                    Log ''info'' ''Commit created successfully'']))"
  by (simp add: makeCommit_def logE_works callE_def eff_simps)

lemma summaryAttempt_fails:
  "delegateFails w \<Longrightarrow> \<exists>e. fst (summaryAttempt w p) = Inl e"
  by (auto simp add: delegateFails_def summaryAttempt_def fst_eff split: option.splits)

lemma generateCommitSummary_returns:
  "loggerWorks w \<Longrightarrow> \<exists>summary. fst (generateCommitSummary w turn s) = Inr summary"
  by (cases "summaryAttempt w (summaryPrompt turn)"; cases "fst (summaryAttempt w (summaryPrompt turn))")
     (auto simp add: generateCommitSummary_def logE_works eff_simps)

lemma generateCommitSummary_fallback:
  "loggerWorks w \<Longrightarrow> delegateFails w \<Longrightarrow>
   fst (generateCommitSummary w turn s) = Inr ''Auto-commit''"
  using summaryAttempt_fails [of w "summaryPrompt turn"]
  by (cases "summaryAttempt w (summaryPrompt turn)")
     (auto simp add: generateCommitSummary_def logE_works eff_simps)

lemma commitStage_attempt:
  assumes "loggerWorks w" and "fst (generateCommitSummary w turn s) = Inr summary"
  shows "fst (commitStage w s turn) = Inr () \<and>
         GitAdd \<in> set (snd (commitStage w s turn)) \<and>
         (addOk w \<longrightarrow>
            GitCommit (truncateCommitMessage (composeMessage summary turn) (maxCommitLength s))
              \<in> set (snd (commitStage w s turn)))"
  using assms
  by (cases "generateCommitSummary w turn s")
     (auto simp add: commitStage_def makeCommit_works logE_works eff_simps Let_def)

lemma turnStage_new_turn:
  assumes "loggerWorks w"
    and "getLastTurn ms = Some turn"
    and "lastCommittedTurnID st \<noteq> Some (userMessageID turn)"
    and "fst (hasChanges w)"
  shows "turnStage w st ms =
           (fst (commitStage w (settings st) turn),
            st \<lparr> lastCommittedTurnID := Some (userMessageID turn) \<rparr>,
            [SetLastCommittedTurnID (userMessageID turn), Log ''info'' ''Processing new turn'',
             GitStatus,
             Log ''info'' ''Found uncommitted changes, generating commit summary''] @
            snd (commitStage w (settings st) turn))"
  using assms snd_hasChanges [of w]
  by (cases "hasChanges w")
     (auto simp add: turnStage_def Let_def logE_works liftE_def eff_simps)

lemma gate_passes:
  assumes "loggerWorks w"
    and "mode (settings st) \<noteq> ''disabled''"
    and "mode (settings st) = ''worktree'' \<Longrightarrow> fst (isWorktree w dir)"
  shows "gate dir w sid st =
           (case messagesResp w of
              None \<Rightarrow> Inl (Rejected (SessionMessages sid))
            | Some data \<Rightarrow> Inr (Some (dataOrEmpty data)),
            [Log ''info'' ''Session idle event received'', GitRevParse,
             Log ''info'' ''Checked if in worktree'', Log ''info'' ''Fetching session messages'',
             SessionMessages sid])"
  using assms snd_isWorktree [of w dir]
  by (cases "isWorktree w dir")
     (auto simp add: gate_def logE_works liftE_def callE_def eff_simps split: option.splits)

lemma eventHandler_past_gate:
  assumes "loggerWorks w"
    and "mode (settings st) \<noteq> ''disabled''"
    and "mode (settings st) = ''worktree'' \<Longrightarrow> fst (isWorktree w dir)"
    and "messagesResp w = Some data"
  shows "eventHandler dir w (SessionIdle sid) st =
           (fst (turnStage w st (dataOrEmpty data)),
            fst (snd (turnStage w st (dataOrEmpty data))),
            [Log ''info'' ''Session idle event received'', GitRevParse,
             Log ''info'' ''Checked if in worktree'', Log ''info'' ''Fetching session messages'',
             SessionMessages sid] @ snd (snd (turnStage w st (dataOrEmpty data))))"
  using gate_passes [OF assms(1-3), of sid] assms(4)
  by (cases "turnStage w st (dataOrEmpty data)") (simp add: eventHandler_def)


section \<open>The example runs, evaluated\<close>

lemma getLastTurn_turnX:
  "getLastTurn turnX =
     Some \<lparr> userMessageID = ''uX'', userPrompt = ''Add file'', assistantResponse = ''Done'' \<rparr>"
  by (simp add: getLastTurn_def turnX_def mkMessage_def repliesTo_def textParts_def
        isText_def textOf_def)

lemma getLastTurn_turnY:
  "getLastTurn turnY =
     Some \<lparr> userMessageID = ''uY'', userPrompt = ''Fix bug'', assistantResponse = ''Fixed'' \<rparr>"
  by (simp add: getLastTurn_def turnY_def mkMessage_def repliesTo_def textParts_def
        isText_def textOf_def)

lemma loggerWorks_worldWith: "loggerWorks (worldWith ms)"
  by (simp add: loggerWorks_def worldWith_def)

lemma hasChanges_worldWith: "hasChanges (worldWith ms) = (True, [GitStatus])"
  by (simp add: hasChanges_def worldWith_def js_trim_def is_space_def)

lemma latestTurnID_worldWith_turnX: "latestTurnID (worldWith turnX) = Some ''uX''"
  by (simp add: latestTurnID_def worldWith_def dataOrEmpty_def getLastTurn_turnX)

lemma latestTurnID_worldWith_turnY: "latestTurnID (worldWith turnY) = Some ''uY''"
  by (simp add: latestTurnID_def worldWith_def dataOrEmpty_def getLastTurn_turnY)


lemma summaryAttempt_worldWith:
  "summaryAttempt (worldWith ms) p =
     (Inr ''Add a file'',
      [SessionCreate, SessionPrompt ''ses_tmp'' p, SessionDelete ''ses_tmp'',
       Log ''info'' ''Commit summary generated''])"
proof -
  have fields: "createResp (worldWith ms) = Some (Some ''ses_tmp'')"
    "promptResp (worldWith ms) =
       Some (Some [\<lparr> partType = ''text'', partText = Some ''Add a file'' \<rparr>])"
    "deleteOk (worldWith ms)"
    by (simp_all add: worldWith_def)
  have trimmed: "js_trim (js_join [NL]
                (textParts [\<lparr> partType = ''text'', partText = Some ''Add a file'' \<rparr>])) =
              ''Add a file''"
    by (simp add: textParts_def isText_def textOf_def js_trim_def is_space_def)
  show ?thesis
    by (simp add: summaryAttempt_def fields trimmed logE_works [OF loggerWorks_worldWith]
          callE_def eff_simps)
qed

lemma generateCommitSummary_worldWith:
  "generateCommitSummary (worldWith ms) turn s =
     (Inr ''Add a file'',
      [Log ''info'' ''Generating commit summary'', SessionCreate,
       SessionPrompt ''ses_tmp'' (summaryPrompt turn), SessionDelete ''ses_tmp'',
       Log ''info'' ''Commit summary generated''])"
  by (simp add: generateCommitSummary_def logE_works [OF loggerWorks_worldWith]
        summaryAttempt_worldWith eff_simps)

lemma makeCommit_worldWith:
  "makeCommit (worldWith ms) message =
     (Inr True, [Log ''info'' ''Staging all changes'', GitAdd,
                 Log ''info'' ''Creating commit'', GitCommit message,
                 Log ''info'' ''Commit created successfully''])"
  by (simp add: makeCommit_works [OF loggerWorks_worldWith]) (simp add: worldWith_def)

lemma commitStage_worldWith:
  "commitStage (worldWith ms) s turn =
     (Inr (),
      [Log ''info'' ''Generating commit summary'', SessionCreate,
       SessionPrompt ''ses_tmp'' (summaryPrompt turn), SessionDelete ''ses_tmp'',
       Log ''info'' ''Commit summary generated'',
       Log ''info'' ''Created commit message'',
       Log ''info'' ''Staging all changes'', GitAdd,
       Log ''info'' ''Creating commit'',
       GitCommit (truncateCommitMessage (composeMessage ''Add a file'' turn) (maxCommitLength s)),
       Log ''info'' ''Commit created successfully'',
       Log ''info'' ''Committed changes successfully''])"
  by (simp add: commitStage_def generateCommitSummary_worldWith makeCommit_worldWith Let_def
        logE_works [OF loggerWorks_worldWith] eff_simps)

lemma eventHandler_worldWith_new:
  assumes "getLastTurn ms = Some turn"
    and "lastCommittedTurnID st \<noteq> Some (userMessageID turn)"
    and "mode (settings st) = ''enabled''"
  shows "eventHandler ''/repo'' (worldWith ms) (SessionIdle sid) st =
           (Inr (), st \<lparr> lastCommittedTurnID := Some (userMessageID turn) \<rparr>,
            [Log ''info'' ''Session idle event received'', GitRevParse,
             Log ''info'' ''Checked if in worktree'', Log ''info'' ''Fetching session messages'',
             SessionMessages sid,
             SetLastCommittedTurnID (userMessageID turn), Log ''info'' ''Processing new turn'',
             GitStatus,
             Log ''info'' ''Found uncommitted changes, generating commit summary''] @
            snd (commitStage (worldWith ms) (settings st) turn))"
proof -
  have g1: "mode (settings st) \<noteq> ''disabled''" using assms(3) by simp
  have g2: "mode (settings st) = ''worktree'' \<Longrightarrow> fst (isWorktree (worldWith ms) ''/repo'')"
    using assms(3) by simp
  have q: "messagesResp (worldWith ms) = Some (Some ms)" by (simp add: worldWith_def)
  have c: "fst (hasChanges (worldWith ms))" by (simp add: hasChanges_worldWith)
  have t: "getLastTurn (dataOrEmpty (Some ms)) = Some turn"
    using assms(1) by (simp add: dataOrEmpty_def)
  show ?thesis
    using eventHandler_past_gate [OF loggerWorks_worldWith g1 g2 q, of sid]
          turnStage_new_turn [OF loggerWorks_worldWith t assms(2) c]
    by (simp add: commitStage_worldWith)
qed

lemma brokenLogWorld_fields:
  "createResp (brokenLogWorld ms) = Some (Some ''ses_tmp'')"
  "promptResp (brokenLogWorld ms) = None"
  "messagesResp (brokenLogWorld ms) = Some (Some ms)"
  "logOk (brokenLogWorld ms) m =
     (m \<noteq> ''Failed to generate commit summary using temporary session'')"
  "hasChanges (brokenLogWorld ms) = (True, [GitStatus])"
  "isWorktree (brokenLogWorld ms) ''/repo'' = (True, [GitRevParse])"
  by (simp_all add: brokenLogWorld_def worldWith_def hasChanges_def isWorktree_def js_trim_def
        is_space_def)

lemma summaryAttempt_brokenLogWorld:
  "summaryAttempt (brokenLogWorld ms) p =
     (Inl (Rejected (SessionPrompt ''ses_tmp'' p)), [SessionCreate, SessionPrompt ''ses_tmp'' p])"
  by (simp add: summaryAttempt_def brokenLogWorld_fields callE_def eff_simps)

lemma generateCommitSummary_brokenLogWorld:
  "generateCommitSummary (brokenLogWorld ms) turn s =
     (Inl (Rejected (Log ''error''
             ''Failed to generate commit summary using temporary session'')),
      [Log ''info'' ''Generating commit summary'', SessionCreate,
       SessionPrompt ''ses_tmp'' (summaryPrompt turn),
       Log ''error'' ''Failed to generate commit summary using temporary session''])"
  by (simp add: generateCommitSummary_def summaryAttempt_brokenLogWorld logE_def
        brokenLogWorld_fields callE_def eff_simps)

section \<open>Properties of the commit summary\<close>

text \<open>
  Claim C5, at the input where the code departs from it: the temporary session
  \<open>ses_tmp\<close> is created, the prompt call throws, and the function returns the fallback
  without any call that deletes the session.
\<close>

theorem generateCommitSummary_leaves_session:
  "generateCommitSummary (worldWith [] \<lparr> promptResp := None \<rparr>) turn s =
     (Inr ''Auto-commit'',
      [Log ''info'' ''Generating commit summary'', SessionCreate,
       SessionPrompt ''ses_tmp'' (summaryPrompt turn),
       Log ''error'' ''Failed to generate commit summary using temporary session'']) \<and>
   SessionCreate \<in> set (snd (generateCommitSummary (worldWith [] \<lparr> promptResp := None \<rparr>) turn s)) \<and>
   SessionDelete ''ses_tmp''
     \<notin> set (snd (generateCommitSummary (worldWith [] \<lparr> promptResp := None \<rparr>) turn s))"
  by (simp add: generateCommitSummary_def summaryAttempt_def worldWith_def logE_def callE_def
        eff_simps)

lemma generateCommitSummary_throws_only_log:
  "fst (generateCommitSummary w turn s) = Inl e \<Longrightarrow>
   e = Rejected (Log ''info'' ''Generating commit summary'') \<or>
   e = Rejected (Log ''error'' ''Failed to generate commit summary using temporary session'')"
  by (auto simp add: generateCommitSummary_def fst_eff split: sum.splits if_splits)

text \<open>
  Claim C9, as the code has it. \<^verbatim>\<open>generateCommitSummary\<close> never propagates an error
  of the text-generation delegate: the only value it can throw is the rejection of one of
  its two log calls that stand outside the \<^verbatim>\<open>try\<close> body. When the log calls return
  it always returns a string, and exactly \<open>Auto-commit\<close> when the delegate fails (the
  temporary session is not created, the prompt call throws, or the text is absent or
  empty). A run of the event handler that reaches the summary step with a failing
  delegate, its log calls returning, does not throw, stages the changes and, when staging
  succeeds, commits with the message composed from \<open>Auto-commit\<close> and truncated to the
  configured length.
\<close>

theorem summary_fallback_when_logger_works:
  "(fst (generateCommitSummary w turn s) = Inl e \<longrightarrow>
      e = Rejected (Log ''info'' ''Generating commit summary'') \<or>
      e = Rejected (Log ''error'' ''Failed to generate commit summary using temporary session'')) \<and>
   (loggerWorks w \<longrightarrow>
      (\<exists>summary. fst (generateCommitSummary w turn s) = Inr summary) \<and>
      (delegateFails w \<longrightarrow> fst (generateCommitSummary w turn s) = Inr ''Auto-commit'')) \<and>
   (loggerWorks w \<and> delegateFails w \<and>
    mode (settings st) \<noteq> ''disabled'' \<and>
    (mode (settings st) = ''worktree'' \<longrightarrow> fst (isWorktree w dir)) \<and>
    messagesResp w = Some data \<and>
    getLastTurn (dataOrEmpty data) = Some turn \<and>
    lastCommittedTurnID st \<noteq> Some (userMessageID turn) \<and>
    fst (hasChanges w) \<longrightarrow>
      fst (eventHandler dir w (SessionIdle sid) st) = Inr () \<and>
      GitAdd \<in> set (snd (snd (eventHandler dir w (SessionIdle sid) st))) \<and>
      (addOk w \<longrightarrow>
         GitCommit (truncateCommitMessage (composeMessage ''Auto-commit'' turn)
                      (maxCommitLength (settings st)))
           \<in> set (snd (snd (eventHandler dir w (SessionIdle sid) st)))))"
proof (intro conjI impI)
  assume "fst (generateCommitSummary w turn s) = Inl e"
  then show "e = Rejected (Log ''info'' ''Generating commit summary'') \<or>
      e = Rejected (Log ''error'' ''Failed to generate commit summary using temporary session'')"
    by (rule generateCommitSummary_throws_only_log)
next
  assume "loggerWorks w"
  then show "\<exists>summary. fst (generateCommitSummary w turn s) = Inr summary"
    by (rule generateCommitSummary_returns)
next
  assume "loggerWorks w" and "delegateFails w"
  then show "fst (generateCommitSummary w turn s) = Inr ''Auto-commit''"
    by (rule generateCommitSummary_fallback)
next
  assume h: "loggerWorks w \<and> delegateFails w \<and>
    mode (settings st) \<noteq> ''disabled'' \<and>
    (mode (settings st) = ''worktree'' \<longrightarrow> fst (isWorktree w dir)) \<and>
    messagesResp w = Some data \<and>
    getLastTurn (dataOrEmpty data) = Some turn \<and>
    lastCommittedTurnID st \<noteq> Some (userMessageID turn) \<and>
    fst (hasChanges w)"
  then have lw: "loggerWorks w" and g1: "mode (settings st) \<noteq> ''disabled''"
    and g2: "mode (settings st) = ''worktree'' \<Longrightarrow> fst (isWorktree w dir)"
    and q: "messagesResp w = Some data"
    and t: "getLastTurn (dataOrEmpty data) = Some turn"
    and n: "lastCommittedTurnID st \<noteq> Some (userMessageID turn)"
    and c: "fst (hasChanges w)"
    by simp_all
  note run = eventHandler_past_gate [OF lw g1 g2 q, of sid]
  note stage = turnStage_new_turn [OF lw t n c]
  have fb: "fst (generateCommitSummary w turn (settings st)) = Inr ''Auto-commit''"
    using h by (simp add: generateCommitSummary_fallback)
  note att = commitStage_attempt [OF lw fb]
  show "fst (eventHandler dir w (SessionIdle sid) st) = Inr ()"
    using att by (simp add: run stage)
  show "GitAdd \<in> set (snd (snd (eventHandler dir w (SessionIdle sid) st)))"
    using att by (simp add: run stage)
  assume "addOk w"
  then show "GitCommit (truncateCommitMessage (composeMessage ''Auto-commit'' turn)
                      (maxCommitLength (settings st)))
           \<in> set (snd (snd (eventHandler dir w (SessionIdle sid) st)))"
    using att by (simp add: run stage)
qed

theorem summary_fallback_when_logger_works_witness:
  "fst (generateCommitSummary (brokenLogWorld turnX)
          \<lparr> userMessageID = ''uX'', userPrompt = ''Add file'', assistantResponse = ''Done'' \<rparr>
          (settings enabledState)) =
     Inl (Rejected (Log ''error'' ''Failed to generate commit summary using temporary session'')) \<and>
   loggerWorks (worldWith turnX \<lparr> promptResp := None \<rparr>) \<and>
   delegateFails (worldWith turnX \<lparr> promptResp := None \<rparr>) \<and>
   mode (settings enabledState) = ''enabled'' \<and>
   messagesResp (worldWith turnX \<lparr> promptResp := None \<rparr>) = Some (Some turnX) \<and>
   getLastTurn (dataOrEmpty (Some turnX)) =
     Some \<lparr> userMessageID = ''uX'', userPrompt = ''Add file'', assistantResponse = ''Done'' \<rparr> \<and>
   lastCommittedTurnID enabledState = None \<and>
   fst (hasChanges (worldWith turnX \<lparr> promptResp := None \<rparr>)) \<and>
   addOk (worldWith turnX \<lparr> promptResp := None \<rparr>) \<and>
   fst (generateCommitSummary (worldWith turnX \<lparr> promptResp := None \<rparr>)
          \<lparr> userMessageID = ''uX'', userPrompt = ''Add file'', assistantResponse = ''Done'' \<rparr>
          (settings enabledState)) = Inr ''Auto-commit'' \<and>
   fst (eventHandler ''/repo'' (worldWith turnX \<lparr> promptResp := None \<rparr>)
          (SessionIdle ''s1'') enabledState) = Inr () \<and>
   GitAdd \<in> set (snd (snd (eventHandler ''/repo'' (worldWith turnX \<lparr> promptResp := None \<rparr>)
                               (SessionIdle ''s1'') enabledState))) \<and>
   GitCommit (''Auto-commit'' @ [NL, NL] @ ''## User Prompt'' @ [NL] @ ''Add file'' @ [NL, NL] @
              ''## LLM Response'' @ [NL] @ ''Done'')
     \<in> set (snd (snd (eventHandler ''/repo'' (worldWith turnX \<lparr> promptResp := None \<rparr>)
                        (SessionIdle ''s1'') enabledState)))"
proof -
  let ?w = "worldWith turnX \<lparr> promptResp := None \<rparr>"
  let ?t = "\<lparr> userMessageID = ''uX'', userPrompt = ''Add file'', assistantResponse = ''Done'' \<rparr>"
  have lw: "loggerWorks ?w"
    by (simp add: loggerWorks_def worldWith_def)
  have f: "delegateFails ?w"
    by (simp add: delegateFails_def worldWith_def)
  have m: "mode (settings enabledState) = ''enabled''"
    by (simp add: enabledState_def)
  have q: "messagesResp ?w = Some (Some turnX)"
    by (simp add: worldWith_def)
  have t: "getLastTurn (dataOrEmpty (Some turnX)) = Some ?t"
    by (simp add: dataOrEmpty_def getLastTurn_turnX)
  have l: "lastCommittedTurnID enabledState = None"
    by (simp add: enabledState_def)
  have c: "fst (hasChanges ?w)"
    by (simp add: hasChanges_def worldWith_def js_trim_def is_space_def)
  have a: "addOk ?w"
    by (simp add: worldWith_def)
  have msg: "truncateCommitMessage (composeMessage ''Auto-commit'' ?t)
               (maxCommitLength (settings enabledState)) =
             ''Auto-commit'' @ [NL, NL] @ ''## User Prompt'' @ [NL] @ ''Add file'' @ [NL, NL] @
              ''## LLM Response'' @ [NL] @ ''Done''"
    by (simp add: truncateCommitMessage_def composeMessage_def enabledState_def)
  show ?thesis
    using summary_fallback_when_logger_works
            [where w = ?w and turn = ?t and s = "settings enabledState" and st = enabledState
               and dir = "''/repo''" and data = "Some turnX" and sid = "''s1''"]
          summary_fallback_when_logger_works
            [where w = "brokenLogWorld turnX" and turn = ?t and s = "settings enabledState"
               and e = "Rejected (Log ''error''
                          ''Failed to generate commit summary using temporary session'')"]
          generateCommitSummary_brokenLogWorld [of turnX ?t "settings enabledState"]
          lw f m q t l c a
    by (simp only: msg) simp
qed

text \<open>
  Claim C9 as stated fails: when the prompt call throws and the log call in the
  \<^verbatim>\<open>catch\<close> block throws too, \<^verbatim>\<open>generateCommitSummary\<close> throws that rejection, and
  the run of the handler, which had found uncommitted changes, ends without staging
  anything.
\<close>

theorem summary_log_rejection_counterexample:
  "delegateFails (brokenLogWorld turnX) \<and>
   fst (generateCommitSummary (brokenLogWorld turnX)
          \<lparr> userMessageID = ''uX'', userPrompt = ''Add file'', assistantResponse = ''Done'' \<rparr>
          (settings enabledState)) =
     Inl (Rejected (Log ''error'' ''Failed to generate commit summary using temporary session'')) \<and>
   fst (hasChanges (brokenLogWorld turnX)) \<and>
   GitStatus \<in> set (snd (snd (eventHandler ''/repo'' (brokenLogWorld turnX) (SessionIdle ''s1'')
                                 enabledState))) \<and>
   GitAdd \<notin> set (snd (snd (eventHandler ''/repo'' (brokenLogWorld turnX) (SessionIdle ''s1'')
                              enabledState)))"
proof -
  let ?w = "brokenLogWorld turnX"
  let ?t = "\<lparr> userMessageID = ''uX'', userPrompt = ''Add file'', assistantResponse = ''Done'' \<rparr>"
  have f: "delegateFails ?w"
    by (simp add: delegateFails_def brokenLogWorld_fields)
  note gcs = generateCommitSummary_brokenLogWorld
  have cs: "commitStage ?w s ?t =
              (Inr (),
               [Log ''info'' ''Generating commit summary'', SessionCreate,
                SessionPrompt ''ses_tmp'' (summaryPrompt ?t),
                Log ''error'' ''Failed to generate commit summary using temporary session'',
                Log ''error'' ''Error during auto-commit''])" for s
    by (simp add: commitStage_def gcs logE_def brokenLogWorld_fields callE_def eff_simps)
  have ts: "turnStage ?w enabledState turnX =
              (Inr (), enabledState \<lparr> lastCommittedTurnID := Some ''uX'' \<rparr>,
               [SetLastCommittedTurnID ''uX'', Log ''info'' ''Processing new turn'', GitStatus,
                Log ''info'' ''Found uncommitted changes, generating commit summary'',
                Log ''info'' ''Generating commit summary'', SessionCreate,
                SessionPrompt ''ses_tmp'' (summaryPrompt ?t),
                Log ''error'' ''Failed to generate commit summary using temporary session'',
                Log ''error'' ''Error during auto-commit''])"
    by (simp add: turnStage_def getLastTurn_turnX enabledState_def cs logE_def
          brokenLogWorld_fields callE_def liftE_def eff_simps)
  have g: "gate ''/repo'' ?w ''s1'' enabledState =
             (Inr (Some turnX),
              [Log ''info'' ''Session idle event received'', GitRevParse,
               Log ''info'' ''Checked if in worktree'',
               Log ''info'' ''Fetching session messages'', SessionMessages ''s1''])"
    by (simp add: gate_def enabledState_def logE_def brokenLogWorld_fields callE_def liftE_def
          eff_simps dataOrEmpty_def)
  have run: "snd (snd (eventHandler ''/repo'' ?w (SessionIdle ''s1'') enabledState)) =
               [Log ''info'' ''Session idle event received'', GitRevParse,
                Log ''info'' ''Checked if in worktree'',
                Log ''info'' ''Fetching session messages'', SessionMessages ''s1'',
                SetLastCommittedTurnID ''uX'', Log ''info'' ''Processing new turn'', GitStatus,
                Log ''info'' ''Found uncommitted changes, generating commit summary'',
                Log ''info'' ''Generating commit summary'', SessionCreate,
                SessionPrompt ''ses_tmp'' (summaryPrompt ?t),
                Log ''error'' ''Failed to generate commit summary using temporary session'',
                Log ''error'' ''Error during auto-commit'']"
    by (simp add: eventHandler_def g ts)
  show ?thesis
    by (simp add: f gcs run brokenLogWorld_fields)
qed

section \<open>Properties of the mode gate\<close>



section \<open>Properties of the dedup marker\<close>

text \<open>
  Claim C1, as the code has it. The marker remembers one turn, the one processed last.
  A run whose latest turn is the marked one is a skip: the state is unchanged and no
  step of the pipeline (change check, summary generation, staging, commit) is made. In
  every run the marker is written before any step of the pipeline, and a run that makes
  such a step leaves the marker at its latest turn, whatever the outcome of the steps.
  Hence in any sequence of runs that all see the same latest turn, the change check and
  the staging happen at most once, and once the marker is that turn every run is a skip.
  All of this holds whatever the collaborators answer, also when log calls throw.
\<close>

theorem dedup_marker:
  "(lastCommittedTurnID st = Some x \<and> latestTurnID w = Some x \<longrightarrow>
      fst (snd (eventHandler dir w ev st)) = st \<and>
      filter pipelineStep (snd (snd (eventHandler dir w ev st))) = []) \<and>
   markerFirst (snd (snd (eventHandler dir w ev st))) \<and>
   (filter pipelineStep (snd (snd (eventHandler dir w ev st))) \<noteq> [] \<longrightarrow>
      latestTurnID w \<noteq> None \<and>
      lastCommittedTurnID (fst (snd (eventHandler dir w ev st))) = latestTurnID w) \<and>
   (list_all (\<lambda>(e, w'). latestTurnID w' = Some x) evs \<longrightarrow>
      count_list (snd (runEvents dir evs st)) GitStatus \<le> 1 \<and>
      count_list (snd (runEvents dir evs st)) GitAdd \<le> 1) \<and>
   (lastCommittedTurnID st = Some x \<and> list_all (\<lambda>(e, w'). latestTurnID w' = Some x) evs \<longrightarrow>
      fst (runEvents dir evs st) = st \<and>
      filter pipelineStep (snd (runEvents dir evs st)) = [])"
proof -
  obtain r st' steps where run: "eventHandler dir w ev st = (r, st', steps)"
    by (cases "eventHandler dir w ev st") auto
  note shape = eventHandler_shape [OF run]
  have skip: "lastCommittedTurnID st = Some x \<and> latestTurnID w = Some x \<longrightarrow>
                st' = st \<and> filter pipelineStep steps = []"
    using shape by auto
  have first: "markerFirst steps"
    using shape by simp
  have marked: "filter pipelineStep steps \<noteq> [] \<longrightarrow>
                  latestTurnID w \<noteq> None \<and> lastCommittedTurnID st' = latestTurnID w"
    using shape by auto
  have once: "list_all (\<lambda>(e, w'). latestTurnID w' = Some x) evs \<longrightarrow>
      count_list (snd (runEvents dir evs st)) GitStatus \<le> 1 \<and>
      count_list (snd (runEvents dir evs st)) GitAdd \<le> 1"
    using runEvents_one_attempt [of x evs dir st] by blast
  have later: "lastCommittedTurnID st = Some x \<and>
               list_all (\<lambda>(e, w'). latestTurnID w' = Some x) evs \<longrightarrow>
      fst (runEvents dir evs st) = st \<and>
      filter pipelineStep (snd (runEvents dir evs st)) = []"
    using runEvents_after_marker [of st x evs dir] by blast
  show ?thesis
    using skip first marked once later by (simp add: run)
qed

theorem dedup_marker_witness:
  "latestTurnID (worldWith turnX) = Some ''uX'' \<and>
   lastCommittedTurnID
     (fst (snd (eventHandler ''/repo'' (worldWith turnX) (SessionIdle ''s1'') enabledState))) =
     Some ''uX'' \<and>
   filter pipelineStep (snd (snd (eventHandler ''/repo'' (worldWith turnX) (SessionIdle ''s1'')
      (enabledState \<lparr> lastCommittedTurnID := Some ''uX'' \<rparr>)))) = [] \<and>
   count_list (snd (runEvents ''/repo''
      [(SessionIdle ''s1'', worldWith turnX), (SessionIdle ''s1'', worldWith turnX)]
      enabledState)) GitAdd \<le> 1 \<and>
   filter pipelineStep (snd (runEvents ''/repo''
      [(SessionIdle ''s1'', worldWith turnX), (SessionIdle ''s1'', worldWith turnX)]
      (enabledState \<lparr> lastCommittedTurnID := Some ''uX'' \<rparr>))) = []"
proof -
  have nonempty: "filter pipelineStep
     (snd (snd (eventHandler ''/repo'' (worldWith turnX) (SessionIdle ''s1'') enabledState))) \<noteq> []"
    using eventHandler_worldWith_new [OF getLastTurn_turnX, of enabledState "''s1''"]
    by (simp add: enabledState_def)
  have first: "lastCommittedTurnID
     (fst (snd (eventHandler ''/repo'' (worldWith turnX) (SessionIdle ''s1'') enabledState))) =
     Some ''uX''"
    using dedup_marker [of enabledState "''uX''" "worldWith turnX" "''/repo''" "SessionIdle ''s1''" "[]"]
          nonempty latestTurnID_worldWith_turnX
    by simp
  have second: "filter pipelineStep (snd (snd (eventHandler ''/repo'' (worldWith turnX)
      (SessionIdle ''s1'') (enabledState \<lparr> lastCommittedTurnID := Some ''uX'' \<rparr>)))) = []"
    using dedup_marker [of "enabledState \<lparr> lastCommittedTurnID := Some ''uX'' \<rparr>" "''uX''"
            "worldWith turnX" "''/repo''" "SessionIdle ''s1''" "[]"]
          latestTurnID_worldWith_turnX
    by simp
  have twice: "count_list (snd (runEvents ''/repo''
      [(SessionIdle ''s1'', worldWith turnX), (SessionIdle ''s1'', worldWith turnX)]
      enabledState)) GitAdd \<le> 1"
    using dedup_marker [of enabledState "''uX''" "worldWith turnX" "''/repo''" "SessionIdle ''s1''"
            "[(SessionIdle ''s1'', worldWith turnX), (SessionIdle ''s1'', worldWith turnX)]"]
          latestTurnID_worldWith_turnX
    by simp
  have later: "filter pipelineStep (snd (runEvents ''/repo''
      [(SessionIdle ''s1'', worldWith turnX), (SessionIdle ''s1'', worldWith turnX)]
      (enabledState \<lparr> lastCommittedTurnID := Some ''uX'' \<rparr>))) = []"
    using dedup_marker [of "enabledState \<lparr> lastCommittedTurnID := Some ''uX'' \<rparr>" "''uX''"
            "worldWith turnX" "''/repo''" "SessionIdle ''s1''"
            "[(SessionIdle ''s1'', worldWith turnX), (SessionIdle ''s1'', worldWith turnX)]"]
          latestTurnID_worldWith_turnX
    by simp
  show ?thesis
    using latestTurnID_worldWith_turnX first second twice later by simp
qed

text \<open>
  Claim C1 as stated fails: the turn \<open>uX\<close> is processed and marked, then the turn
  \<open>uY\<close> of another session, and after that a run that sees \<open>uX\<close> again commits it
  a second time.
\<close>

theorem dedup_single_slot_counterexample:
  "lastCommittedTurnID (fst (runEvents ''/repo'' [(SessionIdle ''s1'', worldWith turnX)]
      enabledState)) = Some ''uX'' \<and>
   count_list (snd (runEvents ''/repo''
      [(SessionIdle ''s1'', worldWith turnX), (SessionIdle ''s2'', worldWith turnY),
       (SessionIdle ''s1'', worldWith turnX)] enabledState))
     (GitCommit (''Add a file'' @ [NL, NL] @ ''## User Prompt'' @ [NL] @ ''Add file'' @ [NL, NL] @
                 ''## LLM Response'' @ [NL] @ ''Done'')) = 2"
proof -
  let ?tx = "\<lparr> userMessageID = ''uX'', userPrompt = ''Add file'', assistantResponse = ''Done'' \<rparr>"
  let ?ty = "\<lparr> userMessageID = ''uY'', userPrompt = ''Fix bug'', assistantResponse = ''Fixed'' \<rparr>"
  let ?s1 = "enabledState \<lparr> lastCommittedTurnID := Some ''uX'' \<rparr>"
  let ?s2 = "enabledState \<lparr> lastCommittedTurnID := Some ''uY'' \<rparr>"
  have r1: "eventHandler ''/repo'' (worldWith turnX) (SessionIdle ''s1'') enabledState =
      (Inr (), ?s1,
       [Log ''info'' ''Session idle event received'', GitRevParse,
             Log ''info'' ''Checked if in worktree'', Log ''info'' ''Fetching session messages'',
             SessionMessages ''s1'',
             SetLastCommittedTurnID ''uX'', Log ''info'' ''Processing new turn'',
             GitStatus,
             Log ''info'' ''Found uncommitted changes, generating commit summary''] @
            snd (commitStage (worldWith turnX) (settings enabledState) ?tx))"
    using eventHandler_worldWith_new [OF getLastTurn_turnX, of enabledState "''s1''"]
    by (simp add: enabledState_def)
  have r2: "eventHandler ''/repo'' (worldWith turnY) (SessionIdle ''s2'') ?s1 =
      (Inr (), ?s2,
       [Log ''info'' ''Session idle event received'', GitRevParse,
             Log ''info'' ''Checked if in worktree'', Log ''info'' ''Fetching session messages'',
             SessionMessages ''s2'',
             SetLastCommittedTurnID ''uY'', Log ''info'' ''Processing new turn'',
             GitStatus,
             Log ''info'' ''Found uncommitted changes, generating commit summary''] @
            snd (commitStage (worldWith turnY) (settings enabledState) ?ty))"
    using eventHandler_worldWith_new [OF getLastTurn_turnY, of ?s1 "''s2''"]
    by (simp add: enabledState_def)
  have r3: "eventHandler ''/repo'' (worldWith turnX) (SessionIdle ''s1'') ?s2 =
      (Inr (), ?s1,
       [Log ''info'' ''Session idle event received'', GitRevParse,
             Log ''info'' ''Checked if in worktree'', Log ''info'' ''Fetching session messages'',
             SessionMessages ''s1'',
             SetLastCommittedTurnID ''uX'', Log ''info'' ''Processing new turn'',
             GitStatus,
             Log ''info'' ''Found uncommitted changes, generating commit summary''] @
            snd (commitStage (worldWith turnX) (settings enabledState) ?tx))"
    using eventHandler_worldWith_new [OF getLastTurn_turnX, of ?s2 "''s1''"]
    by (simp add: enabledState_def)
  have mx: "truncateCommitMessage (composeMessage ''Add a file'' ?tx)
              (maxCommitLength (settings enabledState)) =
            ''Add a file'' @ [NL, NL] @ ''## User Prompt'' @ [NL] @ ''Add file'' @ [NL, NL] @
                 ''## LLM Response'' @ [NL] @ ''Done''"
    by (simp add: truncateCommitMessage_def composeMessage_def enabledState_def)
  have my: "truncateCommitMessage (composeMessage ''Add a file'' ?ty)
              (maxCommitLength (settings enabledState)) =
            ''Add a file'' @ [NL, NL] @ ''## User Prompt'' @ [NL] @ ''Fix bug'' @ [NL, NL] @
                 ''## LLM Response'' @ [NL] @ ''Fixed''"
    by (simp add: truncateCommitMessage_def composeMessage_def enabledState_def)
  show ?thesis
    by (simp add: r1 r2 r3 commitStage_worldWith mx my)
qed

end
